theory Spec2Isabelle
  imports Complex_Main
begin

section \<open>Values: 32-bit floats without rounding\<close>

text \<open>
  The kernels of \<^verbatim>\<open>unsloth/kernels/cross_entropy_loss.py\<close> compute in \<^verbatim>\<open>tl.float32\<close>.
  The model keeps the special values of IEEE 754 that the code itself produces and tests
  (the masked lanes of a load are filled with \<^verbatim>\<open>-float("inf")\<close>, a division of zero by
  zero is not a number) and takes every finite value as an exact real number: no
  rounding, no overflow, no underflow, no signed zero.  The arithmetic on the special
  values is the one of IEEE 754.
\<close>

datatype f32 = NaN | NInf | PInf | Fin real



fun fneg :: "f32 \<Rightarrow> f32" where
  "fneg NaN = NaN"
| "fneg NInf = PInf"
| "fneg PInf = NInf"
| "fneg (Fin x) = Fin (- x)"

fun fadd :: "f32 \<Rightarrow> f32 \<Rightarrow> f32" where
  "fadd NaN b = NaN"
| "fadd a NaN = NaN"
| "fadd PInf NInf = NaN"
| "fadd NInf PInf = NaN"
| "fadd PInf b = PInf"
| "fadd a PInf = PInf"
| "fadd NInf b = NInf"
| "fadd a NInf = NInf"
| "fadd (Fin x) (Fin y) = Fin (x + y)"

definition fsub :: "f32 \<Rightarrow> f32 \<Rightarrow> f32" where
  "fsub a b = fadd a (fneg b)"

fun fmul :: "f32 \<Rightarrow> f32 \<Rightarrow> f32" where
  "fmul NaN b = NaN"
| "fmul a NaN = NaN"
| "fmul (Fin x) (Fin y) = Fin (x * y)"
| "fmul (Fin x) PInf = (if x = 0 then NaN else if 0 < x then PInf else NInf)"
| "fmul (Fin x) NInf = (if x = 0 then NaN else if 0 < x then NInf else PInf)"
| "fmul PInf (Fin y) = (if y = 0 then NaN else if 0 < y then PInf else NInf)"
| "fmul NInf (Fin y) = (if y = 0 then NaN else if 0 < y then NInf else PInf)"
| "fmul PInf PInf = PInf"
| "fmul NInf NInf = PInf"
| "fmul PInf NInf = NInf"
| "fmul NInf PInf = NInf"

text \<open>Division; a zero divisor is the positive zero that an integer count converts to.\<close>

fun fdiv :: "f32 \<Rightarrow> f32 \<Rightarrow> f32" where
  "fdiv NaN b = NaN"
| "fdiv a NaN = NaN"
| "fdiv (Fin x) (Fin y) =
     (if y = 0 then (if x = 0 then NaN else if 0 < x then PInf else NInf) else Fin (x / y))"
| "fdiv (Fin x) PInf = Fin 0"
| "fdiv (Fin x) NInf = Fin 0"
| "fdiv PInf (Fin y) = (if 0 \<le> y then PInf else NInf)"
| "fdiv NInf (Fin y) = (if 0 \<le> y then NInf else PInf)"
| "fdiv a b = NaN"

fun fexp :: "f32 \<Rightarrow> f32" where
  "fexp NaN = NaN"
| "fexp NInf = Fin 0"
| "fexp PInf = PInf"
| "fexp (Fin x) = Fin (exp x)"

fun flog :: "f32 \<Rightarrow> f32" where
  "flog NaN = NaN"
| "flog NInf = NaN"
| "flog PInf = PInf"
| "flog (Fin x) = (if 0 < x then Fin (ln x) else if x = 0 then NInf else NaN)"

text \<open>
  The maximum propagates a NaN; no property below depends on this choice, since a row of
  finite scores and its padding hold none.
\<close>

fun fmax :: "f32 \<Rightarrow> f32 \<Rightarrow> f32" where
  "fmax NaN b = NaN"
| "fmax a NaN = NaN"
| "fmax PInf b = PInf"
| "fmax a PInf = PInf"
| "fmax NInf b = b"
| "fmax a NInf = a"
| "fmax (Fin x) (Fin y) = Fin (max x y)"

section \<open>Integers and memory\<close>

text \<open>
  Labels are 64-bit integers, modelled as \<^typ>\<open>int\<close>; \<^verbatim>\<open>.to(tl.int32)\<close> keeps the low
  32 bits, read as a signed number.
\<close>

definition to_int32 :: "int \<Rightarrow> int" where
  "to_int32 i = (i + 2147483648) mod 4294967296 - 2147483648"

text \<open>
  The score buffer is a flat memory of floats, addressed by element offset; a pointer is
  an offset into it.  The kernels read and write it through \<^verbatim>\<open>tl.load\<close> and
  \<^verbatim>\<open>tl.store\<close> on a block of lanes, under a mask \<^verbatim>\<open>col_offsets < limit\<close>.
\<close>

type_synonym mem = "int \<Rightarrow> f32"

definition tl_load :: "mem \<Rightarrow> int \<Rightarrow> nat list \<Rightarrow> nat \<Rightarrow> f32 list" where
  \<comment> \<open>\<^verbatim>\<open>tl.load(ptr + col_offsets, mask = col_offsets < limit, other = -float("inf"))\<close>\<close>
  "tl_load m p col_offsets limit =
     map (\<lambda>off. if off < limit then m (p + int off) else NInf) col_offsets"

definition tl_store :: "mem \<Rightarrow> int \<Rightarrow> nat list \<Rightarrow> nat \<Rightarrow> f32 list \<Rightarrow> mem" where
  \<comment> \<open>\<^verbatim>\<open>tl.store(ptr + col_offsets, values, mask = col_offsets < limit)\<close>\<close>
  "tl_store m p col_offsets limit vs =
     fold (\<lambda>(off, v) m'. if off < limit then m'(p + int off := v) else m')
          (zip col_offsets vs) m"

definition tl_arange :: "nat \<Rightarrow> nat \<Rightarrow> nat list" where
  \<comment> \<open>\<^verbatim>\<open>start + tl.arange(0, BLOCK_SIZE)\<close>\<close>
  "tl_arange start BLOCK_SIZE = map (\<lambda>i. start + i) [0..<BLOCK_SIZE]"

definition tl_max :: "f32 list \<Rightarrow> f32" where
  "tl_max xs = fold fmax xs NInf"

definition tl_sum :: "f32 list \<Rightarrow> f32" where
  "tl_sum xs = fold fadd xs (Fin 0)"

section \<open>The kernels\<close>

text \<open>
  A kernel runs once for every point of its launch grid.  The model of a forward kernel
  takes the program ids as arguments and returns the values that the program stores at
  its own slot of the output buffers.
\<close>

definition cross_entropy_forward ::
  "mem \<Rightarrow> int \<Rightarrow> nat \<Rightarrow> int list \<Rightarrow> nat \<Rightarrow> nat \<Rightarrow> nat \<Rightarrow> f32 \<times> f32" where
  "cross_entropy_forward m logits_ptr logits_row_stride labels VOCAB_SIZE BLOCK_SIZE row_idx =
     (let row_ptr = logits_ptr + int row_idx * int logits_row_stride;
          col_offsets = tl_arange 0 BLOCK_SIZE;
          label_idx = to_int32 (labels ! row_idx);
          logits = tl_load m row_ptr col_offsets VOCAB_SIZE;
          c = tl_max logits;
          logsumexp = fadd c (flog (tl_sum (map (\<lambda>x. fexp (fsub x c)) logits)));
          loss = (if label_idx \<noteq> - 100
                  then fsub logsumexp (m (row_ptr + label_idx))
                  else Fin 0)
      in (loss, logsumexp))"

text \<open>
  The chunked kernel runs on the grid \<^verbatim>\<open>(n_rows, n_chunks)\<close>; the program
  \<^verbatim>\<open>(row_idx, col_idx)\<close> stores its two results at \<^verbatim>\<open>row_idx + col_idx*n_rows\<close>, that
  is at row \<^verbatim>\<open>col_idx\<close> and column \<^verbatim>\<open>row_idx\<close> of the buffers of shape
  \<^verbatim>\<open>(n_chunks, n_rows)\<close>.  The label is read as a 64-bit integer, as it is stored.  The
  stored \<^verbatim>\<open>lse\<close> is the value before the reassignment \<^verbatim>\<open>lse = 0.0\<close>, which only enters
  the loss of the chunk that holds the label.
\<close>

definition large_cross_entropy_forward ::
  "mem \<Rightarrow> int \<Rightarrow> nat \<Rightarrow> int list \<Rightarrow> nat \<Rightarrow> nat \<Rightarrow> nat \<Rightarrow> nat \<Rightarrow> f32 \<times> f32" where
  "large_cross_entropy_forward m logits_ptr logits_row_stride labels n_cols BLOCK_SIZE row_idx col_idx =
     (let row_ptr = logits_ptr + int row_idx * int logits_row_stride;
          col_offsets = tl_arange (col_idx * BLOCK_SIZE) BLOCK_SIZE;
          label_idx = labels ! row_idx;
          logits = tl_load m row_ptr col_offsets n_cols;
          max_logits = tl_max logits;
          lse = fadd (flog (tl_sum (map (\<lambda>x. fexp (fsub x max_logits)) logits))) max_logits;
          loss = (if label_idx \<noteq> - 100
                     \<and> int ((col_idx + 0) * BLOCK_SIZE) \<le> label_idx
                     \<and> label_idx < int (min ((col_idx + 1) * BLOCK_SIZE) n_cols)
                  then fsub (Fin 0) (m (row_ptr + label_idx))
                  else Fin 0)
      in (loss, lse))"

text \<open>
  The backward kernel runs on the grid \<^verbatim>\<open>(n_rows, n_blocks)\<close> and overwrites its block
  of the score buffer.  The upstream gradient is a buffer of its own, read at
  \<^verbatim>\<open>row_idx * dloss_row_stride\<close> (a stride of zero is a scalar shared by all rows).  The
  log-sum-exp is read from the saved vector, not computed.
\<close>

definition cross_entropy_backward ::
  "int \<Rightarrow> nat \<Rightarrow> (nat \<Rightarrow> f32) \<Rightarrow> nat \<Rightarrow> f32 list \<Rightarrow> int list \<Rightarrow> nat \<Rightarrow> nat \<Rightarrow> nat \<times> nat \<Rightarrow> mem \<Rightarrow> mem" where
  "cross_entropy_backward logits_ptr logits_row_stride dlosses dloss_row_stride logsumexps labels
       VOCAB_SIZE BLOCK_SIZE pid m =
     (let row_idx = fst pid;
          block_idx = snd pid;
          row_ptr = logits_ptr + int row_idx * int logits_row_stride;
          col_offsets = tl_arange (block_idx * BLOCK_SIZE) BLOCK_SIZE;
          label_idx = to_int32 (labels ! row_idx);
          x = tl_load m row_ptr col_offsets VOCAB_SIZE;
          logsumexp = logsumexps ! row_idx;
          y = map (\<lambda>x. fexp (fsub x logsumexp)) x;
          y = map2 (\<lambda>off y. if int off = label_idx then fsub y (Fin 1) else y) col_offsets y;
          dloss = (if label_idx \<noteq> - 100 then dlosses (row_idx * dloss_row_stride) else Fin 0)
      in tl_store m row_ptr col_offsets VOCAB_SIZE (map (fmul dloss) y))"

section \<open>The autograd function\<close>

record tensor2 =
  data_ptr :: int
  stride0 :: nat
  shape0 :: nat
  shape1 :: nat

record ctx =
  saved_logits :: tensor2
  saved_logsumexp :: "f32 list"
  saved_labels :: "int list"

definition MAX_FUSED_SIZE :: nat where
  "MAX_FUSED_SIZE = 65536"

definition BACKWARD_BLOCK_SIZE :: nat where
  "BACKWARD_BLOCK_SIZE = 4096"

text \<open>The reductions of torch, over a vector and over the first dimension of a matrix.\<close>

definition torch_sum :: "f32 list \<Rightarrow> f32" where
  "torch_sum xs = fold fadd xs (Fin 0)"

text \<open>
  \<^verbatim>\<open>torch.logsumexp\<close> is the logarithm of the sum of the exponentials.  torch subtracts
  the maximum before it exponentiates; without rounding and overflow that changes nothing.
\<close>

definition torch_logsumexp :: "f32 list \<Rightarrow> f32" where
  "torch_logsumexp xs = flog (torch_sum (map fexp xs))"

definition column :: "'a list list \<Rightarrow> nat \<Rightarrow> 'a list" where
  "column xss r = map (\<lambda>xs. xs ! r) xss"

definition torch_sum_dim0 :: "nat \<Rightarrow> f32 list list \<Rightarrow> f32 list" where
  "torch_sum_dim0 n xss = map (\<lambda>r. torch_sum (column xss r)) [0..<n]"

definition torch_logsumexp_dim0 :: "nat \<Rightarrow> f32 list list \<Rightarrow> f32 list" where
  "torch_logsumexp_dim0 n xss = map (\<lambda>r. torch_logsumexp (column xss r)) [0..<n]"

definition masked_fill :: "f32 list \<Rightarrow> bool list \<Rightarrow> f32 \<Rightarrow> f32 list" where
  "masked_fill xs msk v = map2 (\<lambda>x b. if b then v else x) xs msk"

text \<open>
  \<^verbatim>\<open>Fast_CrossEntropyLoss.forward\<close>.  The module constant \<^verbatim>\<open>MAX_FUSED_SIZE\<close> is the first
  argument (the source has \<^const>\<open>MAX_FUSED_SIZE\<close>, and the divisor is positive there).
  \<^verbatim>\<open>calculate_settings\<close> is imported from \<^verbatim>\<open>unsloth/kernels/utils.py\<close>, which is not part
  of the sources at hand: it is an argument, and of its result only the block size is
  kept.
\<close>

definition Fast_CrossEntropyLoss_forward ::
  "nat \<Rightarrow> (nat \<Rightarrow> nat) \<Rightarrow> mem \<Rightarrow> tensor2 \<Rightarrow> int list \<Rightarrow> f32 list \<times> ctx" where
  "Fast_CrossEntropyLoss_forward max_fused_size calculate_settings m logits labels =
     (let n_rows = shape0 logits;
          vocab_size = shape1 logits;
          n_chunks = vocab_size div max_fused_size
                     + (if vocab_size mod max_fused_size \<noteq> 0 then 1 else 0);
          (losses, logsumexp) =
            (if n_chunks = 1 then
               let BLOCK_SIZE = calculate_settings vocab_size;
                   out = map (cross_entropy_forward m (data_ptr logits) (stride0 logits) labels
                                vocab_size BLOCK_SIZE) [0..<n_rows]
               in (map fst out, map snd out)
             else
               let out = map (\<lambda>col_idx.
                              map (\<lambda>row_idx.
                                     large_cross_entropy_forward m (data_ptr logits) (stride0 logits)
                                       labels vocab_size max_fused_size row_idx col_idx)
                                  [0..<n_rows])
                             [0..<n_chunks];
                   losses = map (map fst) out;
                   logsumexp = map (map snd) out;
                   logsumexp = torch_logsumexp_dim0 n_rows logsumexp;
                   losses = torch_sum_dim0 n_rows losses;
                   losses = map2 fadd losses logsumexp;
                   losses = masked_fill losses (map (\<lambda>l. l = - 100) labels) (Fin 0)
               in (losses, logsumexp))
      in (losses, \<lparr>saved_logits = logits, saved_logsumexp = logsumexp, saved_labels = labels\<rparr>))"

text \<open>
  \<^verbatim>\<open>Fast_CrossEntropyLoss.backward\<close>.  The block size is the first argument (the source
  has \<^const>\<open>BACKWARD_BLOCK_SIZE\<close>).  The programs of the grid write disjoint places; the
  model runs them one after the other, row by row.  The result is the score buffer,
  which now holds the gradient.
\<close>

definition Fast_CrossEntropyLoss_backward ::
  "nat \<Rightarrow> mem \<Rightarrow> ctx \<Rightarrow> (nat \<Rightarrow> f32) \<Rightarrow> nat \<Rightarrow> mem" where
  "Fast_CrossEntropyLoss_backward BLOCK_SIZE m c dlosses dlosses_stride0 =
     (let logits = saved_logits c;
          logsumexp = saved_logsumexp c;
          labels = saved_labels c;
          n_rows = shape0 logits;
          vocab_size = shape1 logits;
          n_blocks = vocab_size div BLOCK_SIZE + (if vocab_size mod BLOCK_SIZE \<noteq> 0 then 1 else 0)
      in fold (cross_entropy_backward (data_ptr logits) (stride0 logits) dlosses dlosses_stride0
                 logsumexp labels vocab_size BLOCK_SIZE)
              (List.product [0..<n_rows] [0..<n_blocks]) m)"

section \<open>The loss\<close>

text \<open>
  \<^verbatim>\<open>fast_cross_entropy_loss\<close>.  The scores are a contiguous tensor of shape
  \<^verbatim>\<open>(batch, seq_len, d)\<close>, so that \<^verbatim>\<open>logits.view(batch*seq_len, d)\<close> has the row stride
  \<^verbatim>\<open>d\<close>; the labels are a tensor with its shape and its elements in row-major order.
\<close>

datatype error = AssertionError

record tensor3 =
  data_ptr3 :: int
  batch :: nat
  seq_len :: nat
  d :: nat

record label_tensor =
  lshape :: "nat list"
  ldata :: "int list"

definition count_nonzero :: "bool list \<Rightarrow> nat" where
  "count_nonzero bs = length (filter (\<lambda>b. b) bs)"

definition view2 :: "tensor3 \<Rightarrow> tensor2" where
  \<comment> \<open>\<^verbatim>\<open>logits.view(batch*seq_len, d)\<close>\<close>
  "view2 logits = \<lparr>data_ptr = data_ptr3 logits, stride0 = d logits,
                   shape0 = batch logits * seq_len logits, shape1 = d logits\<rparr>"

definition fast_cross_entropy_loss ::
  "nat \<Rightarrow> (nat \<Rightarrow> nat) \<Rightarrow> mem \<Rightarrow> tensor3 \<Rightarrow> label_tensor \<Rightarrow> error + f32" where
  "fast_cross_entropy_loss max_fused_size calculate_settings m logits labels =
     (if lshape labels \<noteq> [batch logits, seq_len logits] then Inl AssertionError
      else
        let (loss, c) = Fast_CrossEntropyLoss_forward max_fused_size calculate_settings m
                          (view2 logits) (ldata labels);
            n_items = count_nonzero (map (\<lambda>l. l \<noteq> - 100) (ldata labels))
        in Inr (fdiv (torch_sum loss) (Fin (real n_items))))"

section \<open>Vocabulary of the properties\<close>

text \<open>
  The scores of a row as real numbers, the rows whose scores are all finite, and the
  labels of the data model: a column index or the sentinel \<open>-100\<close>.
\<close>

definition row_ptr :: "tensor2 \<Rightarrow> nat \<Rightarrow> int" where
  "row_ptr t r = data_ptr t + int r * int (stride0 t)"





definition lse_stable :: "real list \<Rightarrow> real" where
  "lse_stable xs = (let c = Max (set xs) in c + ln (\<Sum>x\<leftarrow>xs. exp (x - c)))"


definition n_chunks_of :: "nat \<Rightarrow> nat \<Rightarrow> nat" where
  "n_chunks_of V B = V div B + (if V mod B \<noteq> 0 then 1 else 0)"

text \<open>
  What the backward kernel computes for one element \<open>x\<close> of column \<open>j\<close>, and the
  upstream gradient that it uses for a row.
\<close>

definition grad_elem :: "f32 \<Rightarrow> int \<Rightarrow> f32 \<Rightarrow> nat \<Rightarrow> f32 \<Rightarrow> f32" where
  "grad_elem logsumexp label_idx dloss j x =
     fmul dloss (if int j = label_idx then fsub (fexp (fsub x logsumexp)) (Fin 1)
                 else fexp (fsub x logsumexp))"

definition dloss_of :: "(nat \<Rightarrow> f32) \<Rightarrow> nat \<Rightarrow> int list \<Rightarrow> nat \<Rightarrow> f32" where
  "dloss_of dlosses ds labels r =
     (if to_int32 (labels ! r) \<noteq> - 100 then dlosses (r * ds) else Fin 0)"

text \<open>
  The example of the specification: two rows \<open>[1, 2, 3, 4]\<close> and \<open>[0, 0, 0, 0]\<close> at
  the addresses from 0 on, with the labels 3 and \<open>-100\<close>.
\<close>

definition example_mem :: mem where
  "example_mem = (\<lambda>a. if a < 4 then Fin (real_of_int a + 1) else Fin 0)"



definition example_logits3 :: tensor3 where
  "example_logits3 = \<lparr>data_ptr3 = 0, batch = 1, seq_len = 2, d = 4\<rparr>"


definition ignored_label_tensor :: label_tensor where
  "ignored_label_tensor = \<lparr>lshape = [1, 2], ldata = [- 100, - 100]\<rparr>"

section \<open>One block of lanes\<close>






lemma fold_fadd_zeros: "fold fadd (replicate k (Fin 0)) (Fin a) = Fin a"
  by (induction k) (simp_all del: fold_replicate)







section \<open>The single-pass kernel\<close>






section \<open>The chunked kernel\<close>







section \<open>Log-sum-exp over chunks\<close>





lemma n_chunks_cover:
  assumes "0 < B" shows "V \<le> n_chunks_of V B * B"
proof -
  have e: "V div B * B + V mod B = V" by simp
  have l: "V mod B < B" using assms by simp
  show ?thesis
  proof (cases "V mod B = 0")
    case True
    then show ?thesis using e by (simp add: n_chunks_of_def)
  next
    case False
    then have "n_chunks_of V B * B = V div B * B + B" by (simp add: n_chunks_of_def)
    then show ?thesis using e l by linarith
  qed
qed





section \<open>Bounds on the log-sum-exp\<close>

text \<open>
  After the maximum is subtracted no argument of \<open>exp\<close> is positive, the sum of the
  exponentials lies between one and the number of columns, and the log-sum-exp lies
  between the maximum and the maximum plus the logarithm of the number of columns.
\<close>

lemma Max_minus_nonpos: "x \<in> set xs \<Longrightarrow> x - Max (set xs) \<le> (0::real)"
  by simp

lemma sum_shifted_bounds:
  assumes "xs \<noteq> []"
  shows "1 \<le> (\<Sum>x\<leftarrow>xs. exp (x - Max (set xs)))"
    and "(\<Sum>x\<leftarrow>xs. exp (x - Max (set xs))) \<le> real (length xs)"
proof -
  let ?c = "Max (set xs)"
  have "?c \<in> set xs" using assms by (intro Max_in) auto
  then obtain ys zs where xs: "xs = ys @ ?c # zs" by (auto simp: in_set_conv_decomp)
  have nn: "0 \<le> (\<Sum>x\<leftarrow>us. exp (x - ?c))" for us
    by (rule sum_list_nonneg) auto
  have "0 \<le> (\<Sum>x\<leftarrow>ys. exp (x - ?c))" "0 \<le> (\<Sum>x\<leftarrow>zs. exp (x - ?c))"
    by (rule nn)+
  moreover have "(\<Sum>x\<leftarrow>xs. exp (x - ?c))
      = (\<Sum>x\<leftarrow>ys. exp (x - ?c)) + (1 + (\<Sum>x\<leftarrow>zs. exp (x - ?c)))"
    by (subst xs) simp
  ultimately show "1 \<le> (\<Sum>x\<leftarrow>xs. exp (x - ?c))" by linarith
  have "(\<Sum>x\<leftarrow>xs. exp (x - ?c)) \<le> (\<Sum>x\<leftarrow>xs. 1)"
    by (rule sum_list_mono) simp
  then show "(\<Sum>x\<leftarrow>xs. exp (x - ?c)) \<le> real (length xs)"
    by (simp add: sum_list_triv)
qed

lemma lse_stable_bounds:
  assumes "xs \<noteq> []"
  shows "Max (set xs) \<le> lse_stable xs" and "lse_stable xs \<le> Max (set xs) + ln (real (length xs))"
proof -
  note b = sum_shifted_bounds[OF assms]
  have "0 \<le> ln (\<Sum>x\<leftarrow>xs. exp (x - Max (set xs)))" using b(1) by simp
  then show "Max (set xs) \<le> lse_stable xs" by (simp add: lse_stable_def Let_def)
  have "ln (\<Sum>x\<leftarrow>xs. exp (x - Max (set xs))) \<le> ln (real (length xs))"
    using b by (intro ln_mono) auto
  then show "lse_stable xs \<le> Max (set xs) + ln (real (length xs))"
    by (simp add: lse_stable_def Let_def)
qed

lemma softmax_arg_nonpos:
  assumes "x \<in> set xs" shows "x - lse_stable xs \<le> 0"
proof -
  have "xs \<noteq> []" using assms by auto
  then have "Max (set xs) \<le> lse_stable xs" by (rule lse_stable_bounds(1))
  moreover have "x \<le> Max (set xs)" using assms by simp
  ultimately show ?thesis by linarith
qed

section \<open>The forward pass, row by row\<close>

lemma label_chunk_bound:
  assumes "0 < B" and "j < V" shows "j div B < n_chunks_of V B"
proof -
  have "j < n_chunks_of V B * B" using n_chunks_cover[OF assms(1), of V] assms(2) by linarith
  then show ?thesis using assms(1) by (simp add: less_mult_imp_div_less)
qed







lemma forward_length:
  assumes "length labels = shape0 t"
  shows "length (fst (Fast_CrossEntropyLoss_forward M calc m t labels)) = shape0 t"
  using assms
  by (simp add: Fast_CrossEntropyLoss_forward_def Let_def masked_fill_def
      torch_sum_dim0_def torch_logsumexp_dim0_def)

lemma forward_ignore_row:
  assumes "r < shape0 t" and "length labels = shape0 t" and "labels ! r = - 100"
  shows "fst (Fast_CrossEntropyLoss_forward M calc m t labels) ! r = Fin 0"
proof (cases "n_chunks_of (shape1 t) M = 1")
  case True
  have "to_int32 (labels ! r) = - 100" using assms(3) by (simp add: to_int32_def)
  then have "fst (cross_entropy_forward m (data_ptr t) (stride0 t) labels (shape1 t) B r) = Fin 0" for B
    by (simp add: cross_entropy_forward_def Let_def)
  then show ?thesis using True assms(1)
    by (simp add: Fast_CrossEntropyLoss_forward_def n_chunks_of_def Let_def)
next
  case False
  then show ?thesis using assms
    by (simp add: Fast_CrossEntropyLoss_forward_def n_chunks_of_def Let_def masked_fill_def
        torch_sum_dim0_def torch_logsumexp_dim0_def)
qed

section \<open>The backward pass, element by element\<close>

lemma tl_store_other:
  "(\<And>off. off \<in> set offs \<Longrightarrow> off < V \<Longrightarrow> p + int off \<noteq> a) \<Longrightarrow> tl_store m p offs V vs a = m a"
proof (induction offs arbitrary: vs m)
  case Nil
  show ?case by (simp add: tl_store_def)
next
  case (Cons off offs)
  show ?case
  proof (cases vs)
    case Nil
    then show ?thesis by (simp add: tl_store_def)
  next
    case (Cons v vs')
    let ?m' = "if off < V then m(p + int off := v) else m"
    have "tl_store m p (off # offs) V vs a = tl_store ?m' p offs V vs' a"
      by (simp add: tl_store_def Cons)
    also have "\<dots> = ?m' a" using Cons.prems by (intro Cons.IH) simp
    also have "\<dots> = m a" using Cons.prems[of off] by auto
    finally show ?thesis .
  qed
qed

lemma tl_store_hit:
  "distinct offs \<Longrightarrow> i < length offs \<Longrightarrow> length vs = length offs \<Longrightarrow> offs ! i < V
   \<Longrightarrow> tl_store m p offs V vs (p + int (offs ! i)) = vs ! i"
proof (induction offs arbitrary: vs m i)
  case Nil
  then show ?case by simp
next
  case (Cons off offs)
  then obtain v vs' where vs: "vs = v # vs'" by (cases vs) auto
  let ?m' = "if off < V then m(p + int off := v) else m"
  have step: "tl_store m p (off # offs) V vs a = tl_store ?m' p offs V vs' a" for a
    by (simp add: tl_store_def vs)
  show ?case
  proof (cases i)
    case 0
    have "tl_store ?m' p offs V vs' (p + int off) = ?m' (p + int off)"
      using Cons.prems(1) by (intro tl_store_other) auto
    then have "tl_store m p (off # offs) V vs (p + int off) = v"
      unfolding step using 0 Cons.prems(4) by simp
    then show ?thesis using 0 by (simp add: vs)
  next
    case (Suc i')
    have "tl_store ?m' p offs V vs' (p + int (offs ! i')) = vs' ! i'"
      using Cons.prems Suc vs by (intro Cons.IH) auto
    then have "tl_store m p (off # offs) V vs (p + int (offs ! i')) = vs' ! i'"
      unfolding step .
    then show ?thesis using Suc by (simp add: vs)
  qed
qed

lemma backward_kernel_hit:
  assumes "j < V" and "b * B \<le> j" and "j < b * B + B"
  shows "cross_entropy_backward lp st dlosses ds lses labels V B (r, b) m (lp + int r * int st + int j)
     = grad_elem (lses ! r) (to_int32 (labels ! r)) (dloss_of dlosses ds labels r) j
         (m (lp + int r * int st + int j))"
proof -
  let ?p = "lp + int r * int st"
  let ?offs = "tl_arange (b * B) B"
  let ?i = "j - b * B"
  let ?y = "map2 (\<lambda>off y. if int off = to_int32 (labels ! r) then fsub y (Fin 1) else y) ?offs
              (map (\<lambda>x. fexp (fsub x (lses ! r))) (tl_load m ?p ?offs V))"
  let ?vs = "map (fmul (dloss_of dlosses ds labels r)) ?y"
  have i: "?i < B" "b * B + ?i = j" using assms by auto
  have d: "distinct ?offs" by (simp add: tl_arange_def distinct_map inj_on_def)
  have n: "?offs ! ?i = j" using i by (simp add: tl_arange_def)
  have li: "?i < length ?offs" using i by (simp add: tl_arange_def)
  have lv: "length ?vs = length ?offs" by (simp add: tl_arange_def tl_load_def)
  have "tl_store m ?p ?offs V ?vs (?p + int (?offs ! ?i)) = ?vs ! ?i"
    using d li lv by (rule tl_store_hit) (simp add: n assms(1))
  moreover have "?vs ! ?i = grad_elem (lses ! r) (to_int32 (labels ! r)) (dloss_of dlosses ds labels r) j
         (m (?p + int j))"
    using i assms(1) by (simp add: tl_arange_def tl_load_def grad_elem_def del: of_nat_add)
  ultimately show ?thesis
    by (simp add: cross_entropy_backward_def Let_def n dloss_of_def)
qed

lemma backward_kernel_other:
  assumes "\<And>off. b * B \<le> off \<Longrightarrow> off < b * B + B \<Longrightarrow> off < V \<Longrightarrow> lp + int r * int st + int off \<noteq> a"
  shows "cross_entropy_backward lp st dlosses ds lses labels V B (r, b) m a = m a"
proof -
  have "tl_store m (lp + int r * int st) (tl_arange (b * B) B) V vs a = m a" for vs
    using assms by (intro tl_store_other) (auto simp: tl_arange_def)
  then show ?thesis by (simp add: cross_entropy_backward_def Let_def)
qed

lemma cell_inj:
  assumes "int r' * int st + int j' = int r * int st + int j" and "j' < st" and "j < st"
  shows "r' = r \<and> j' = j"
proof -
  have e: "r' * st + j' = r * st + j"
    using assms(1) by (metis (mono_tags) of_nat_add of_nat_mult of_nat_eq_iff)
  have "(r' * st + j') div st = r'" "(r * st + j) div st = r" using assms(2,3) by simp_all
  then have "r' = r" using e by simp
  then show ?thesis using e by simp
qed

lemma backward_launch_cell:
  assumes "distinct ps" and "j < V" and "V \<le> st" and "0 < B"
  shows "fold (cross_entropy_backward lp st dlosses ds lses labels V B) ps m (lp + int r * int st + int j)
     = (if (r, j div B) \<in> set ps
        then grad_elem (lses ! r) (to_int32 (labels ! r)) (dloss_of dlosses ds labels r) j
               (m (lp + int r * int st + int j))
        else m (lp + int r * int st + int j))"
  using assms(1)
proof (induction ps arbitrary: m)
  case Nil
  show ?case by simp
next
  case (Cons p ps)
  let ?K = "cross_entropy_backward lp st dlosses ds lses labels V B"
  let ?a = "lp + int r * int st + int j"
  obtain r' b' where p: "p = (r', b')" by (cases p)
  have d: "distinct ps" and np: "p \<notin> set ps" using Cons.prems by simp_all
  have IH: "fold ?K ps (?K p m) ?a = (if (r, j div B) \<in> set ps
        then grad_elem (lses ! r) (to_int32 (labels ! r)) (dloss_of dlosses ds labels r) j (?K p m ?a)
        else ?K p m ?a)"
    using d by (rule Cons.IH)
  show ?case
  proof (cases "p = (r, j div B)")
    case True
    have "j div B * B \<le> j" by simp
    moreover have "j < j div B * B + B" using assms(4)
      by (metis add.commute dividend_less_times_div mult.commute)
    ultimately have "?K (r, j div B) m ?a
       = grad_elem (lses ! r) (to_int32 (labels ! r)) (dloss_of dlosses ds labels r) j (m ?a)"
      using assms(2) by (intro backward_kernel_hit)
    then show ?thesis using True np IH by simp
  next
    case False
    have mem: "(r, j div B) \<in> set (p # ps) \<longleftrightarrow> (r, j div B) \<in> set ps"
      using False by auto
    have "?K (r', b') m ?a = m ?a"
    proof (rule backward_kernel_other)
      fix off assume o: "b' * B \<le> off" "off < b' * B + B" "off < V"
      show "lp + int r' * int st + int off \<noteq> ?a"
      proof
        assume "lp + int r' * int st + int off = ?a"
        then have "int r' * int st + int off = int r * int st + int j" by simp
        then have "r' = r \<and> off = j" using o(3) assms(2,3) by (intro cell_inj[where st = st]) auto
        moreover then have "j div B = b'" using o(1,2)
          by (metis div_nat_eqI mult.commute mult_Suc_right add.commute)
        ultimately show False using False p by simp
      qed
    qed
    then have k: "?K p m ?a = m ?a" by (simp only: p)
    have "fold ?K (p # ps) m ?a = fold ?K ps (?K p m) ?a" by simp
    also note IH
    finally show ?thesis by (simp only: k mem)
  qed
qed


lemma backward_cell:
  assumes "saved_logits c = t" and "r < shape0 t" and "j < shape1 t"
    and "shape1 t \<le> stride0 t" and "0 < B"
  shows "Fast_CrossEntropyLoss_backward B m c dlosses ds (row_ptr t r + int j)
     = grad_elem (saved_logsumexp c ! r) (to_int32 (saved_labels c ! r))
         (dloss_of dlosses ds (saved_labels c) r) j (m (row_ptr t r + int j))"
proof -
  let ?ps = "List.product [0..<shape0 t] [0..<n_chunks_of (shape1 t) B]"
  have d: "distinct ?ps" by (simp add: distinct_product)
  have "j div B < n_chunks_of (shape1 t) B" using assms(5,3) by (rule label_chunk_bound)
  then have i: "(r, j div B) \<in> set ?ps" using assms(2) by simp
  have "fold (cross_entropy_backward (data_ptr t) (stride0 t) dlosses ds (saved_logsumexp c)
                (saved_labels c) (shape1 t) B) ?ps m (data_ptr t + int r * int (stride0 t) + int j)
     = grad_elem (saved_logsumexp c ! r) (to_int32 (saved_labels c ! r))
         (dloss_of dlosses ds (saved_labels c) r) j (m (data_ptr t + int r * int (stride0 t) + int j))"
    using backward_launch_cell[OF d assms(3,4,5), of "data_ptr t" dlosses ds "saved_logsumexp c" "saved_labels c" m r] i
    by (simp only: if_True)
  then show ?thesis
    by (simp add: Fast_CrossEntropyLoss_backward_def Let_def assms(1) row_ptr_def n_chunks_of_def)
qed





text \<open>
  The programs of the backward grid may run in any order: every schedule that runs each
  program once leaves the same values in the rows of the score buffer.
\<close>

lemma backward_any_order:
  assumes "distinct ps"
    and "set ps = set (List.product [0..<shape0 t] [0..<n_chunks_of (shape1 t) B])"
    and "saved_logits c = t" and "r < shape0 t" and "j < shape1 t"
    and "shape1 t \<le> stride0 t" and "0 < B"
  shows "fold (cross_entropy_backward (data_ptr t) (stride0 t) dlosses ds (saved_logsumexp c)
                (saved_labels c) (shape1 t) B) ps m (row_ptr t r + int j)
       = Fast_CrossEntropyLoss_backward B m c dlosses ds (row_ptr t r + int j)"
proof -
  have "j div B < n_chunks_of (shape1 t) B" using assms(7,5) by (rule label_chunk_bound)
  then have i: "(r, j div B) \<in> set ps" using assms(2,4) by simp
  have "fold (cross_entropy_backward (data_ptr t) (stride0 t) dlosses ds (saved_logsumexp c)
                (saved_labels c) (shape1 t) B) ps m (data_ptr t + int r * int (stride0 t) + int j)
     = grad_elem (saved_logsumexp c ! r) (to_int32 (saved_labels c ! r))
         (dloss_of dlosses ds (saved_labels c) r) j (m (data_ptr t + int r * int (stride0 t) + int j))"
    using backward_launch_cell[OF assms(1,5,6,7), of "data_ptr t" dlosses ds "saved_logsumexp c" "saved_labels c" m r] i
    by (simp only: if_True)
  then show ?thesis
    using backward_cell[OF assms(3,4,5,6,7), of m dlosses ds] by (simp add: row_ptr_def)
qed

section \<open>Forward and backward together\<close>






section \<open>The mean loss\<close>

lemma torch_sum_zeros:
  assumes "\<And>r. r < length xs \<Longrightarrow> xs ! r = Fin 0"
  shows "torch_sum xs = Fin 0"
proof -
  have "xs = replicate (length xs) (Fin 0)"
    using assms by (intro nth_equalityI) simp_all
  then have "torch_sum xs = fold fadd (replicate (length xs) (Fin 0)) (Fin 0)"
    by (simp only: torch_sum_def)
  then show ?thesis by (simp only: fold_fadd_zeros)
qed


lemma count_nonzero_filter: "count_nonzero (map P xs) = length (filter P xs)"
  by (induction xs) (simp_all add: count_nonzero_def)

lemma fast_cross_entropy_loss_eq:
  assumes "lshape lb = [batch lg, seq_len lg]"
  shows "fast_cross_entropy_loss M calc m lg lb =
     Inr (fdiv (torch_sum (fst (Fast_CrossEntropyLoss_forward M calc m (view2 lg) (ldata lb))))
               (Fin (real (length (filter (\<lambda>l. l \<noteq> - 100) (ldata lb))))))"
  using assms by (simp add: fast_cross_entropy_loss_def split_beta count_nonzero_filter)

lemma view2_simps:
  "shape0 (view2 lg) = batch lg * seq_len lg" "shape1 (view2 lg) = d lg"
  "stride0 (view2 lg) = d lg" "data_ptr (view2 lg) = data_ptr3 lg"
  by (simp_all add: view2_def)

text \<open>The block sizes of the source satisfy what the properties ask of them.\<close>

lemma source_block_sizes:
  "0 < MAX_FUSED_SIZE" "0 < BACKWARD_BLOCK_SIZE" "MAX_FUSED_SIZE \<le> 2147483648"
  by (simp_all add: MAX_FUSED_SIZE_def BACKWARD_BLOCK_SIZE_def)

section \<open>The example\<close>



section \<open>Claims\<close>













text \<open>
  Claim C7.  When every label is the sentinel, the number of valid labels is zero and the
  loss operation returns the division of zero by zero: not a number.  No error is
  raised.  The tensors are not empty.
\<close>

theorem all_ignored_gives_nan:
  assumes "0 < M"
    and "lshape lb = [batch lg, seq_len lg]"
    and "length (ldata lb) = batch lg * seq_len lg"
    and "0 < batch lg" and "0 < seq_len lg" and "0 < d lg"
    and "\<forall>l\<in>set (ldata lb). l = - 100"
  shows "fast_cross_entropy_loss M calc m lg lb = Inr NaN"
proof -
  let ?t = "view2 lg"
  let ?labels = "ldata lb"
  let ?losses = "fst (Fast_CrossEntropyLoss_forward M calc m ?t ?labels)"
  have len: "length ?labels = shape0 ?t" using assms(3) by (simp add: view2_simps)
  have ll: "length ?losses = shape0 ?t" using len by (rule forward_length)
  have "?losses ! r = Fin 0" if "r < length ?losses" for r
  proof -
    have r: "r < shape0 ?t" using that ll by simp
    then have "?labels ! r = - 100" using assms(7) len by simp
    with r len show ?thesis by (rule forward_ignore_row)
  qed
  then have s: "torch_sum ?losses = Fin 0" by (rule torch_sum_zeros)
  have n: "filter (\<lambda>l. l \<noteq> - 100) ?labels = []" using assms(7) by (simp add: filter_empty_conv)
  have "fast_cross_entropy_loss M calc m lg lb
      = Inr (fdiv (torch_sum ?losses) (Fin (real (length (filter (\<lambda>l. l \<noteq> - 100) ?labels)))))"
    using assms(2) by (rule fast_cross_entropy_loss_eq)
  then show ?thesis by (simp add: s n)
qed

theorem all_ignored_gives_nan_witness:
  "lshape ignored_label_tensor = [batch example_logits3, seq_len example_logits3]
   \<and> list_all (\<lambda>l. l = - 100) (ldata ignored_label_tensor)
   \<and> fast_cross_entropy_loss 4 (\<lambda>n. n) example_mem example_logits3 ignored_label_tensor = Inr NaN"
proof -
  have h: "(0::nat) < 4"
    "lshape ignored_label_tensor = [batch example_logits3, seq_len example_logits3]"
    "length (ldata ignored_label_tensor) = batch example_logits3 * seq_len example_logits3"
    "0 < batch example_logits3" "0 < seq_len example_logits3" "0 < d example_logits3"
    "\<forall>l\<in>set (ldata ignored_label_tensor). l = - 100"
    by (simp_all add: example_logits3_def ignored_label_tensor_def)
  from all_ignored_gives_nan[of 4 ignored_label_tensor example_logits3 "\<lambda>n. n" example_mem, OF h]
  show ?thesis using h(2,7) by (simp add: list_all_iff)
qed



text \<open>
  Claim C10.  The log-sum-exp vector that the forward pass saves is the same for any two
  label vectors.
\<close>

theorem logsumexp_independent_of_labels:
  "saved_logsumexp (snd (Fast_CrossEntropyLoss_forward M calc m t labels1)) =
   saved_logsumexp (snd (Fast_CrossEntropyLoss_forward M calc m t labels2))"
  by (simp add: Fast_CrossEntropyLoss_forward_def Let_def split_beta o_def
      cross_entropy_forward_def large_cross_entropy_forward_def)

end
